theory Spec2Isabelle
  imports Main "HOL-Library.Char_ord" "HOL-Library.Word"
begin

unbundle bit_operations_syntax

section \<open>Go runtime conventions\<close>

text \<open>
  Go strings are byte sequences: \<open>len(s)\<close> counts bytes and \<open>s[i]\<close> is a byte, so a Go
  string is a \<^typ>\<open>string\<close> (a list of 8-bit characters) here, and a \<open>[]byte\<close> is a list of
  8-bit words. Characters are compared by their byte value. A Go run-time panic is a value
  of type \<open>panic\<close>; a function that can panic returns \<open>panic + 'a\<close>.
\<close>

datatype panic = IndexOutOfRange | SliceBoundsOutOfRange

type_synonym byte = "8 word"

text \<open>\<open>s[i]\<close> on a string or slice, with \<open>i\<close> a Go \<open>int\<close>: panics out of range.\<close>

definition index :: "'a list \<Rightarrow> int \<Rightarrow> panic + 'a" where
  "index s i = (if 0 \<le> i \<and> i < int (length s) then Inr (s ! nat i) else Inl IndexOutOfRange)"

text \<open>The byte comparison \<open>lo <= c && c <= hi\<close>.\<close>

definition inRange :: "char \<Rightarrow> char \<Rightarrow> char \<Rightarrow> bool" where
  "inRange lo hi c \<longleftrightarrow> lo \<le> c \<and> c \<le> hi"

definition isLetter :: "char \<Rightarrow> bool" where
  "isLetter c \<longleftrightarrow> inRange (CHR ''a'') (CHR ''z'') c \<or> inRange (CHR ''A'') (CHR ''Z'') c"

definition isDigit :: "char \<Rightarrow> bool" where
  "isDigit c \<longleftrightarrow> inRange (CHR ''0'') (CHR ''9'') c"

text \<open>The line feed character, which \<open>.\<close> in a Go regular expression does not match.\<close>

definition LF :: char where
  "LF = CHR 0x0A"

text \<open>\<open>strings.Contains(s, sep)\<close>, \<open>strings.TrimPrefix\<close> and \<open>strings.TrimSuffix\<close> for a
  separator of one byte, which is how the program calls them.\<close>

definition Contains :: "string \<Rightarrow> char \<Rightarrow> bool" where
  "Contains s c \<longleftrightarrow> c \<in> set s"

definition TrimPrefix :: "string \<Rightarrow> char \<Rightarrow> string" where
  "TrimPrefix s c = (case s of [] \<Rightarrow> [] | x # xs \<Rightarrow> if x = c then xs else s)"

definition TrimSuffix :: "string \<Rightarrow> char \<Rightarrow> string" where
  "TrimSuffix s c = (if s \<noteq> [] \<and> last s = c then butlast s else s)"

section \<open>The Go standard library: address parsing of package net\<close>

text \<open>
  The program calls \<open>net.ParseIP\<close>, \<open>net.ParseCIDR\<close>, \<open>IPMask.Size\<close>, \<open>IP.String\<close> and
  \<open>net.JoinHostPort\<close> of the Go standard library. They
  are not code of this repository; the definitions of this section follow the library's
  implementation (\<open>net/parse.go\<close> and \<open>net/ip.go\<close>, as of Go 1.16, the release current when
  the repository was written), function by function and under the library's names. An
  \<open>IP\<close> is a byte slice of length 4 or 16; a \<open>nil\<close> result of a parser is \<open>None\<close>, and a
  \<open>nil\<close> slice elsewhere the empty list.
\<close>

subsection \<open>Parsing addresses\<close>

text \<open>\<open>dtoi\<close> and \<open>xtoi\<close>: a decimal and a hexadecimal number at the start of a string,
  with the number of bytes read and a success flag. Numbers from \<open>big\<close> on are refused,
  so the Go \<open>int\<close> accumulator never overflows and is an unbounded integer here.\<close>

definition big :: int where "big = 0xFFFFFF"

text \<open>\<open>int(s[i] - base)\<close>: a byte subtraction, then widened.\<close>
definition byteDiff :: "char \<Rightarrow> char \<Rightarrow> int" where
  "byteDiff c base = (of_char c - of_char base) mod 256"

fun dtoi_loop :: "string \<Rightarrow> int \<Rightarrow> int \<Rightarrow> int \<times> int \<times> bool" where
  "dtoi_loop [] n i = (if i = 0 then (0, 0, False) else (n, i, True))"
| "dtoi_loop (c # cs) n i =
     (if isDigit c then
        (let n' = n * 10 + byteDiff c (CHR ''0'') in
         if n' \<ge> big then (big, i, False) else dtoi_loop cs n' (i + 1))
      else if i = 0 then (0, 0, False) else (n, i, True))"

definition dtoi :: "string \<Rightarrow> int \<times> int \<times> bool" where
  "dtoi s = dtoi_loop s 0 0"

fun xtoi_loop :: "string \<Rightarrow> int \<Rightarrow> int \<Rightarrow> int \<times> int \<times> bool" where
  "xtoi_loop [] n i = (if i = 0 then (0, i, False) else (n, i, True))"
| "xtoi_loop (c # cs) n i =
     (if isDigit c \<or> inRange (CHR ''a'') (CHR ''f'') c \<or> inRange (CHR ''A'') (CHR ''F'') c then
        (let n' = (if isDigit c then n * 16 + byteDiff c (CHR ''0'')
                   else if inRange (CHR ''a'') (CHR ''f'') c then n * 16 + (byteDiff c (CHR ''a'') + 10)
                   else n * 16 + (byteDiff c (CHR ''A'') + 10)) in
         if n' \<ge> big then (0, i, False) else xtoi_loop cs n' (i + 1))
      else if i = 0 then (0, i, False) else (n, i, True))"

definition xtoi :: "string \<Rightarrow> int \<times> int \<times> bool" where
  "xtoi s = xtoi_loop s 0 0"

text \<open>\<open>parseIPv4\<close>: four decimal octets separated by dots. The result is the 16-byte
  IPv4-in-IPv6 form that \<open>net.IPv4\<close> builds.\<close>

definition IPv4len :: int where "IPv4len = 4"
definition IPv6len :: int where "IPv6len = 16"

definition v4InV6Prefix :: "byte list" where
  "v4InV6Prefix = [0, 0, 0, 0, 0, 0, 0, 0, 0, 0, 0xff, 0xff]"

definition IPv4 :: "byte \<Rightarrow> byte \<Rightarrow> byte \<Rightarrow> byte \<Rightarrow> byte list" where
  "IPv4 a b c d = v4InV6Prefix @ [a, b, c, d]"

function parseIPv4_loop :: "int \<Rightarrow> string \<Rightarrow> byte list \<Rightarrow> byte list option" where
  "parseIPv4_loop i s p =
     (if i < IPv4len then
        (if length s = 0 then None
         else if i > 0 \<and> hd s \<noteq> CHR ''.'' then None
         else
           (let s1 = (if i > 0 then tl s else s) in
            case dtoi s1 of (n, c, ok) \<Rightarrow>
              if \<not> ok \<or> n > 0xFF then None
              else parseIPv4_loop (i + 1) (drop (nat c) s1) (p @ [word_of_int n])))
      else if length s \<noteq> 0 then None
      else Some (IPv4 (p ! 0) (p ! 1) (p ! 2) (p ! 3)))"
  by pat_completeness auto
termination
  by (relation "measure (\<lambda>(i, s, p). nat (IPv4len - i))") auto

declare parseIPv4_loop.simps [simp del]

definition parseIPv4 :: "string \<Rightarrow> byte list option" where
  "parseIPv4 s = parseIPv4_loop 0 s []"

text \<open>\<open>parseIPv6\<close>: hextets separated by colons, with at most one \<open>::\<close> and an optional
  trailing dotted quad. The loop is left by \<open>break\<close> or by its condition with the state
  \<open>v6state\<close>, or by \<open>return nil\<close>; \<open>parseIPv6_finish\<close> is the code after the loop, which
  expands the ellipsis.\<close>

record v6state =
  v6_ip :: "byte list"
  v6_i :: int
  v6_ellipsis :: int
  v6_s :: string

function parseIPv6_loop :: "byte list \<Rightarrow> int \<Rightarrow> int \<Rightarrow> string \<Rightarrow> v6state option" where
  "parseIPv6_loop ip i ellipsis s =
     (if i < IPv6len then
        (case xtoi s of (n, c, ok) \<Rightarrow>
           if \<not> ok \<or> n > 0xFFFF then None
           else if c < int (length s) \<and> s ! nat c = CHR ''.'' then
             (if ellipsis < 0 \<and> i \<noteq> IPv6len - IPv4len then None
              else if i + IPv4len > IPv6len then None
              else case parseIPv4 s of
                     None \<Rightarrow> None
                   | Some ip4 \<Rightarrow>
                       Some \<lparr>v6_ip = ip @ drop 12 ip4, v6_i = i + IPv4len,
                             v6_ellipsis = ellipsis, v6_s = []\<rparr>)
           else
             (let ip' = ip @ [word_of_int (n div 256), word_of_int n];
                  i' = i + 2;
                  s1 = drop (nat c) s in
              if length s1 = 0 then
                Some \<lparr>v6_ip = ip', v6_i = i', v6_ellipsis = ellipsis, v6_s = s1\<rparr>
              else if hd s1 \<noteq> CHR '':'' \<or> length s1 = 1 then None
              else
                (let s2 = tl s1 in
                 if hd s2 = CHR '':'' then
                   (if ellipsis \<ge> 0 then None
                    else if length (tl s2) = 0 then
                      Some \<lparr>v6_ip = ip', v6_i = i', v6_ellipsis = i', v6_s = tl s2\<rparr>
                    else parseIPv6_loop ip' i' i' (tl s2))
                 else parseIPv6_loop ip' i' ellipsis s2)))
      else Some \<lparr>v6_ip = ip, v6_i = i, v6_ellipsis = ellipsis, v6_s = s\<rparr>)"
  by pat_completeness auto
termination
  by (relation "measure (\<lambda>(ip, i, ellipsis, s). nat (IPv6len - i))") auto

declare parseIPv6_loop.simps [simp del]

definition parseIPv6_finish :: "v6state \<Rightarrow> byte list option" where
  "parseIPv6_finish st =
     (if length (v6_s st) \<noteq> 0 then None
      else if v6_i st < IPv6len then
        (if v6_ellipsis st < 0 then None
         else Some (take (nat (v6_ellipsis st)) (v6_ip st)
                    @ replicate (nat (IPv6len - v6_i st)) 0
                    @ drop (nat (v6_ellipsis st)) (v6_ip st)))
      else if v6_ellipsis st \<ge> 0 then None
      else Some (v6_ip st))"

definition parseIPv6 :: "string \<Rightarrow> byte list option" where
  "parseIPv6 s =
     (if length s \<ge> 2 \<and> s ! 0 = CHR '':'' \<and> s ! 1 = CHR '':'' then
        (if length (drop 2 s) = 0 then Some (replicate 16 0)
         else case parseIPv6_loop [] 0 0 (drop 2 s) of
                None \<Rightarrow> None | Some st \<Rightarrow> parseIPv6_finish st)
      else case parseIPv6_loop [] 0 (- 1) s of
             None \<Rightarrow> None | Some st \<Rightarrow> parseIPv6_finish st)"

text \<open>\<open>ParseIP\<close> looks for the first dot or colon to choose the parser.\<close>

fun ParseIP_scan :: "string \<Rightarrow> string \<Rightarrow> byte list option" where
  "ParseIP_scan s [] = None"
| "ParseIP_scan s (c # cs) =
     (if c = CHR ''.'' then parseIPv4 s
      else if c = CHR '':'' then parseIPv6 s
      else ParseIP_scan s cs)"

definition ParseIP :: "string \<Rightarrow> byte list option" where
  "ParseIP s = ParseIP_scan s s"

subsection \<open>CIDR notation\<close>

text \<open>\<open>CIDRMask(ones, bits)\<close>: \<open>ones\<close> one-bits followed by zeros, \<open>bits\<close> bits in all;
  \<open>nil\<close> (the empty slice) unless \<open>bits\<close> is 32 or 128 and \<open>0 <= ones <= bits\<close>. The loop
  fills \<open>l\<close> bytes with \<open>n\<close> ones still to write.\<close>

fun CIDRMask_loop :: "nat \<Rightarrow> nat \<Rightarrow> byte list" where
  "CIDRMask_loop 0 n = []"
| "CIDRMask_loop (Suc l) n =
     (if n \<ge> 8 then 0xff # CIDRMask_loop l (n - 8)
      else NOT (drop_bit n 0xff) # CIDRMask_loop l 0)"

definition CIDRMask :: "int \<Rightarrow> int \<Rightarrow> byte list" where
  "CIDRMask ones bits =
     (if bits \<noteq> 8 * IPv4len \<and> bits \<noteq> 8 * IPv6len then []
      else if ones < 0 \<or> ones > bits then []
      else CIDRMask_loop (nat (bits div 8)) (nat ones))"

text \<open>\<open>ip.Mask(mask)\<close>: the bytewise conjunction, after bringing an IPv4 address and an
  IPv4 mask to four bytes; \<open>nil\<close> when the lengths differ.\<close>

definition allFF :: "byte list \<Rightarrow> bool" where
  "allFF b = list_all (\<lambda>c. c = 0xff) b"

definition IP_Mask :: "byte list \<Rightarrow> byte list \<Rightarrow> byte list" where
  "IP_Mask ip msk =
     (let msk1 = (if length msk = 16 \<and> length ip = 4 \<and> allFF (take 12 msk)
                   then drop 12 msk else msk);
          ip1 = (if length msk1 = 4 \<and> length ip = 16 \<and> take 12 ip = v4InV6Prefix
                 then drop 12 ip else ip)
      in if length ip1 \<noteq> length msk1 then [] else map2 (AND) ip1 msk1)"

record IPNet =
  IP :: "byte list"
  Mask :: "byte list"

text \<open>\<open>bytealg.IndexByteString(s, c)\<close>: the first position of \<open>c\<close>, or \<open>-1\<close>.\<close>

fun IndexByteString_from :: "int \<Rightarrow> string \<Rightarrow> char \<Rightarrow> int" where
  "IndexByteString_from i [] c = - 1"
| "IndexByteString_from i (x # xs) c = (if x = c then i else IndexByteString_from (i + 1) xs c)"

definition IndexByteString :: "string \<Rightarrow> char \<Rightarrow> int" where
  "IndexByteString s c = IndexByteString_from 0 s c"

text \<open>\<open>ParseCIDR\<close> returns the network (\<open>None\<close> stands for the \<open>*ParseError\<close> it returns
  otherwise).\<close>

definition ParseCIDR :: "string \<Rightarrow> IPNet option" where
  "ParseCIDR s =
     (let i = IndexByteString s (CHR ''/'') in
      if i < 0 then None
      else
        (let addr = take (nat i) s;
             maskstr = drop (nat (i + 1)) s;
             ip4 = parseIPv4 addr;
             iplen = (if ip4 = None then IPv6len else IPv4len);
             ip = (if ip4 = None then parseIPv6 addr else ip4)
         in case dtoi maskstr of (n, j, ok) \<Rightarrow>
              (case ip of
                 None \<Rightarrow> None
               | Some ipb \<Rightarrow>
                   if \<not> ok \<or> j \<noteq> int (length maskstr) \<or> n < 0 \<or> n > 8 * iplen then None
                   else (let m = CIDRMask n (8 * iplen)
                         in Some \<lparr>IP = IP_Mask ipb m, Mask = m\<rparr>))))"

text \<open>\<open>m.Size()\<close>: the number of leading ones and the number of bits of a mask in canonical
  form, and \<open>(0, 0)\<close> otherwise. \<open>simpleMaskLength\<close> counts bytes \<open>0xff\<close>, then the leading
  ones of the first other byte, and wants zeros from there on.\<close>

function ones_loop :: "byte \<Rightarrow> int \<Rightarrow> byte \<times> int" where
  "ones_loop v n = (if v AND 0x80 \<noteq> 0 then ones_loop (push_bit 1 v) (n + 1) else (v, n))"
  by pat_completeness auto
termination
proof (relation "measure (\<lambda>(v, n). unat v)")
  show "wf (measure (\<lambda>(v, n). unat v))" by simp
next
  fix v :: byte and n :: int
  assume h: "v AND 0x80 \<noteq> 0"
  have b: "(v AND 2 ^ 7 = 0) = (\<not> bit v 7)" by (rule and_exp_eq_0_iff_not_bit)
  from h b have "bit v 7" by simp
  then have "bit (unat v) 7" by (simp add: bit_unsigned_iff)
  then have "odd (unat v div 2 ^ 7)" by (simp add: bit_iff_odd)
  then have g: "128 \<le> unat v" by (cases "unat v < 128") auto
  have l: "unat v < 256" using unsigned_less [of v] by simp
  have "unat (push_bit 1 v) = (2 * unat v) mod 256"
    by (simp add: push_bit_eq_mult unat_word_ariths mult.commute)
  also have "\<dots> = 2 * unat v - 256" using g l by (simp add: mod_if)
  also have "\<dots> < unat v" using g l by simp
  finally show "((push_bit 1 v, n + 1), (v, n)) \<in> measure (\<lambda>(v, n). unat v)"
    by simp
qed

declare ones_loop.simps [simp del]

fun simpleMaskLength_from :: "int \<Rightarrow> byte list \<Rightarrow> int" where
  "simpleMaskLength_from n [] = n"
| "simpleMaskLength_from n (v # rest) =
     (if v = 0xff then simpleMaskLength_from (n + 8) rest
      else case ones_loop v n of (v', n') \<Rightarrow>
             if v' \<noteq> 0 then - 1
             else if list_ex (\<lambda>b. b \<noteq> 0) rest then - 1
             else n')"

definition simpleMaskLength :: "byte list \<Rightarrow> int" where
  "simpleMaskLength msk = simpleMaskLength_from 0 msk"

definition Size :: "byte list \<Rightarrow> int \<times> int" where
  "Size m =
     (let ones = simpleMaskLength m; bits = int (length m) * 8
      in if ones = - 1 then (0, 0) else (ones, bits))"

subsection \<open>Printing addresses\<close>

text \<open>\<open>ip.To4()\<close>: the four bytes of an IPv4 address in either form, else \<open>nil\<close>.\<close>

definition To4 :: "byte list \<Rightarrow> byte list" where
  "To4 ip =
     (if length ip = 4 then ip
      else if length ip = 16 \<and> take 12 ip = v4InV6Prefix then drop 12 ip
      else [])"

text \<open>\<open>ubtoa\<close>: the decimal digits of a byte, without leading zeros.\<close>

definition digitChar :: "nat \<Rightarrow> char" where
  "digitChar n = char_of (n + of_char (CHR ''0''))"

definition ubtoa :: "byte \<Rightarrow> string" where
  "ubtoa v =
     (let n = unat v in
      if n < 10 then [digitChar n]
      else if n < 100 then [digitChar (n div 10), digitChar (n mod 10)]
      else [digitChar (n div 100), digitChar ((n div 10) mod 10), digitChar (n mod 10)])"

text \<open>\<open>appendHex\<close>: the hexadecimal digits of a number below \<open>2^16\<close>, without leading
  zeros; the loop over \<open>j = 7, ..., 0\<close> prints the digit at position \<open>j\<close> once the number
  shifted by \<open>4 j\<close> bits is positive.\<close>

definition hexDigit :: string where
  "hexDigit = ''0123456789abcdef''"

fun appendHex_loop :: "nat \<Rightarrow> 32 word \<Rightarrow> string" where
  "appendHex_loop 0 i = []"
| "appendHex_loop (Suc j) i =
     (let v = drop_bit (j * 4) i in
      (if v > 0 then [hexDigit ! unat (v AND 0xf)] else []) @ appendHex_loop j i)"

definition appendHex :: "string \<Rightarrow> 32 word \<Rightarrow> string" where
  "appendHex dst i = (if i = 0 then dst @ ''0'' else dst @ appendHex_loop 8 i)"

text \<open>The 16-bit group at byte \<open>i\<close> of a 16-byte address: \<open>(uint32(p[i])<<8) | uint32(p[i+1])\<close>.\<close>

definition hextet :: "byte list \<Rightarrow> int \<Rightarrow> 32 word" where
  "hextet p i = push_bit 8 (ucast (p ! nat i)) OR ucast (p ! nat (i + 1))"

text \<open>The search for the longest run of zero groups in \<open>ip.String()\<close>: \<open>skipZeros\<close> is the
  inner loop, \<open>zeroRun_loop\<close> the outer one with the best run \<open>e0, e1\<close> so far.\<close>

function skipZeros :: "byte list \<Rightarrow> int \<Rightarrow> int" where
  "skipZeros p j =
     (if j < IPv6len \<and> p ! nat j = 0 \<and> p ! nat (j + 1) = 0 then skipZeros p (j + 2) else j)"
  by pat_completeness auto
termination
  by (relation "measure (\<lambda>(p, j). nat (IPv6len - j))") auto

declare skipZeros.simps [simp del]

function zeroRun_loop :: "byte list \<Rightarrow> int \<Rightarrow> int \<Rightarrow> int \<Rightarrow> int \<times> int" where
  "zeroRun_loop p i e0 e1 =
     (if i < IPv6len then
        (let j = skipZeros p i in
         if j > i \<and> j - i > e1 - e0 then zeroRun_loop p (j + 2) i j
         else zeroRun_loop p (i + 2) e0 e1)
      else (e0, e1))"
  by pat_completeness auto
termination
  by (relation "measure (\<lambda>(p, i, e0, e1). nat (IPv6len - i))") auto

declare zeroRun_loop.simps [simp del]

text \<open>The printing loop of \<open>ip.String()\<close>. At \<open>i = e0\<close> it writes \<open>::\<close> and continues at
  \<open>e1\<close>. A run found by the search has \<open>e0 < e1\<close>; the guard \<open>e1 \<le> e0\<close> only makes the
  recursion well-founded for other arguments, which the caller never passes.\<close>

function printGroups :: "byte list \<Rightarrow> int \<Rightarrow> int \<Rightarrow> int \<Rightarrow> string \<Rightarrow> string" where
  "printGroups p e0 e1 i b =
     (if i < IPv6len then
        (if i = e0 then
           (if e1 \<ge> IPv6len \<or> e1 \<le> e0 then b @ ''::''
            else printGroups p e0 e1 (e1 + 2) (appendHex (b @ ''::'') (hextet p e1)))
         else printGroups p e0 e1 (i + 2) (appendHex (if i > 0 then b @ '':'' else b) (hextet p i)))
      else b)"
  by pat_completeness auto
termination
  by (relation "measure (\<lambda>(p, e0, e1, i, b). nat (IPv6len - i))") auto

declare printGroups.simps [simp del]

text \<open>\<open>ip.String()\<close> for a slice of 4 or 16 bytes (the other lengths, which the program never
  builds, print as \<open><nil>\<close> and as \<open>?\<close> followed by the hexadecimal bytes).\<close>

definition hexString :: "byte list \<Rightarrow> string" where
  "hexString b = concat (map (\<lambda>x. [hexDigit ! unat (drop_bit 4 x), hexDigit ! unat (x AND 0xf)]) b)"

definition IP_String :: "byte list \<Rightarrow> string" where
  "IP_String ip =
     (if length ip = 0 then ''<nil>''
      else
        (let p4 = To4 ip in
         if length p4 = 4 then
           ubtoa (p4 ! 0) @ ''.'' @ ubtoa (p4 ! 1) @ ''.'' @ ubtoa (p4 ! 2) @ ''.'' @ ubtoa (p4 ! 3)
         else if length ip \<noteq> 16 then ''?'' @ hexString ip
         else
           (case zeroRun_loop ip 0 (- 1) (- 1) of (e0, e1) \<Rightarrow>
              if e1 - e0 \<le> 2 then printGroups ip (- 1) (- 1) 0 []
              else printGroups ip e0 e1 0 [])))"

text \<open>\<open>net.JoinHostPort\<close>: a host with a colon is put in brackets.\<close>

definition JoinHostPort :: "string \<Rightarrow> string \<Rightarrow> string" where
  "JoinHostPort host port =
     (if IndexByteString host (CHR '':'') \<ge> 0 then ''['' @ host @ '']:'' @ port
      else host @ '':'' @ port)"

section \<open>The Go standard library: package encoding/binary and slices\<close>

text \<open>\<open>binary.BigEndian.Uint32(b)\<close> and \<open>Uint64(b)\<close> read the first 4 and 8 bytes; they start
  with the bounds check \<open>_ = b[3]\<close> and \<open>_ = b[7]\<close>. \<open>binary.Write(buf, binary.BigEndian, v)\<close>
  appends the 4 or 8 bytes of \<open>v\<close>, most significant first, and returns no error for these
  types.\<close>

definition Uint32 :: "byte list \<Rightarrow> panic + 32 word" where
  "Uint32 b =
     (case index b 3 of
        Inl e \<Rightarrow> Inl e
      | Inr b3 \<Rightarrow> Inr (ucast b3 OR push_bit 8 (ucast (b ! 2)) OR push_bit 16 (ucast (b ! 1))
                      OR push_bit 24 (ucast (b ! 0))))"

definition Uint64 :: "byte list \<Rightarrow> panic + 64 word" where
  "Uint64 b =
     (case index b 7 of
        Inl e \<Rightarrow> Inl e
      | Inr b7 \<Rightarrow> Inr (ucast b7 OR push_bit 8 (ucast (b ! 6)) OR push_bit 16 (ucast (b ! 5))
                      OR push_bit 24 (ucast (b ! 4)) OR push_bit 32 (ucast (b ! 3))
                      OR push_bit 40 (ucast (b ! 2)) OR push_bit 48 (ucast (b ! 1))
                      OR push_bit 56 (ucast (b ! 0))))"

definition bytes32 :: "32 word \<Rightarrow> byte list" where
  "bytes32 v = [ucast (drop_bit 24 v), ucast (drop_bit 16 v), ucast (drop_bit 8 v), ucast v]"

definition bytes64 :: "64 word \<Rightarrow> byte list" where
  "bytes64 v = [ucast (drop_bit 56 v), ucast (drop_bit 48 v), ucast (drop_bit 40 v),
     ucast (drop_bit 32 v), ucast (drop_bit 24 v), ucast (drop_bit 16 v), ucast (drop_bit 8 v),
     ucast v]"

text \<open>The slice expressions \<open>s[i:]\<close> and \<open>s[:i]\<close> (on slices whose capacity is their length).\<close>

definition sliceFrom :: "'a list \<Rightarrow> nat \<Rightarrow> panic + 'a list" where
  "sliceFrom s i = (if i \<le> length s then Inr (drop i s) else Inl SliceBoundsOutOfRange)"

definition sliceTo :: "'a list \<Rightarrow> nat \<Rightarrow> panic + 'a list" where
  "sliceTo s i = (if i \<le> length s then Inr (take i s) else Inl SliceBoundsOutOfRange)"

section \<open>util.go: isDomainName\<close>

text \<open>
  The \<open>for i := 0; i < len(s); i++\<close> loop of \<open>isDomainName\<close> together with the two
  statements after it. The loop variables \<open>last\<close> (written \<open>lastc\<close>), \<open>nonNumeric\<close>,
  \<open>partlen\<close> and \<open>parts\<close> are passed along; an early \<open>return false\<close> is the result \<open>Inr False\<close>. The counters are
  Go \<open>int\<close>s bounded by \<open>len(s)\<close>, so they are modelled as unbounded integers.
\<close>

function isDomainName_loop ::
  "string \<Rightarrow> int \<Rightarrow> char \<Rightarrow> bool \<Rightarrow> int \<Rightarrow> int \<Rightarrow> panic + bool" where
  "isDomainName_loop s i lastc nonNumeric partlen parts =
     (if i < int (length s) then
        (case index s i of
           Inl e \<Rightarrow> Inl e
         | Inr c \<Rightarrow>
            if isLetter c then isDomainName_loop s (i + 1) c True (partlen + 1) parts
            else if isDigit c then isDomainName_loop s (i + 1) c nonNumeric (partlen + 1) parts
            else if c = CHR ''-'' then
              (if lastc = CHR ''.'' then Inr False
               else isDomainName_loop s (i + 1) c True (partlen + 1) parts)
            else if c = CHR ''.'' then
              (if lastc = CHR ''.'' \<or> lastc = CHR ''-'' then Inr False
               else if partlen > 63 \<or> partlen = 0 then Inr False
               else isDomainName_loop s (i + 1) c nonNumeric 0 (parts + 1))
            else Inr False)
      else if lastc = CHR ''-'' \<or> partlen > 63 then Inr False
      else Inr (nonNumeric \<and> (parts > 1 \<or> parts > 0 \<and> lastc \<noteq> CHR ''.'')))"
  by pat_completeness auto
termination
  by (relation "measure (\<lambda>(s, i, lastc, nonNumeric, partlen, parts). nat (int (length s) - i))")
     auto

declare isDomainName_loop.simps [simp del]

text \<open>
  The guard \<open>l == 0 || l > 254 || l == 254 && s[l-1] != '.'\<close> is evaluated left to right
  with short-circuiting, so \<open>s[l-1]\<close> is read only when \<open>l = 254\<close>.
\<close>

definition isDomainName :: "string \<Rightarrow> panic + bool" where
  "isDomainName s =
     (let l = int (length s) in
      if l = 0 \<or> l > 254 then Inr False
      else if l = 254 then
        (case index s (l - 1) of
           Inl e \<Rightarrow> Inl e
         | Inr c \<Rightarrow> if c \<noteq> CHR ''.'' then Inr False
                    else isDomainName_loop s 0 (CHR ''.'') False 0 0)
      else isDomainName_loop s 0 (CHR ''.'') False 0 0)"

section \<open>util.go: splitHostPort\<close>

text \<open>
  \<open>portRegexp\<close> is \<open>^(.*?)(:(\d+))?$\<close>, matched by Go's \<open>regexp\<close> package: leftmost-first
  (Perl-like) matching, \<open>.\<close> matches any character but a line feed, \<open>\d\<close> an ASCII digit,
  and \<open>$\<close> without the \<open>m\<close> flag only the end of the text. The lazy \<open>(.*?)\<close> tries the
  shortest prefix first; at each prefix the optional group is tried before the empty
  alternative. \<open>portRegexp_from h rest\<close> is the matcher with \<open>h\<close> already consumed by
  \<open>(.*?)\<close> and \<open>rest\<close> still to match; it gives the submatches 1 and 3, or \<open>None\<close> when
  the expression does not match. \<open>FindStringSubmatch\<close> returns the slice of the whole
  match and the three groups, and \<open>nil\<close> (the empty slice) when there is no match.
\<close>

text \<open>The group \<open>(:(\d+))\<close> followed by \<open>$\<close>, tried on the rest of the input.\<close>

definition portGroup :: "string \<Rightarrow> string option" where
  "portGroup rest =
     (case rest of
        [] \<Rightarrow> None
      | c # ds \<Rightarrow> if c = CHR '':'' \<and> ds \<noteq> [] \<and> list_all isDigit ds then Some ds else None)"

fun portRegexp_from :: "string \<Rightarrow> string \<Rightarrow> (string \<times> string) option" where
  "portRegexp_from h [] = Some (h, [])"
| "portRegexp_from h (c # cs) =
     (case portGroup (c # cs) of
        Some p \<Rightarrow> Some (h, p)
      | None \<Rightarrow> if c = LF then None else portRegexp_from (h @ [c]) cs)"

definition portRegexp_FindStringSubmatch :: "string \<Rightarrow> string list" where
  "portRegexp_FindStringSubmatch addr =
     (case portRegexp_from [] addr of
        None \<Rightarrow> []
      | Some (h, p) \<Rightarrow> [addr, h, if p = [] then [] else CHR '':'' # p, p])"

text \<open>\<open>bracketRegexp\<close> is \<open>^\[.*\]$\<close>.\<close>

definition bracketRegexp_MatchString :: "string \<Rightarrow> bool" where
  "bracketRegexp_MatchString s =
     (case s of
        [] \<Rightarrow> False
      | c # cs \<Rightarrow> c = CHR ''['' \<and> cs \<noteq> [] \<and> last cs = CHR '']'' \<and> LF \<notin> set (butlast cs))"

text \<open>Every value with a slash is considered a CIDR.\<close>

definition isCIDR :: "string \<Rightarrow> bool" where
  "isCIDR v = Contains v (CHR ''/'')"

text \<open>\<open>splitHostPort\<close> reads \<open>portMatch[1]\<close> and \<open>portMatch[3]\<close> without testing
  \<open>portMatch\<close> for \<open>nil\<close>; \<open>fmt.Sprintf(`%s:%s`, host, port)\<close> is the concatenation
  with a colon.\<close>

definition splitHostPort :: "string \<Rightarrow> panic + (string \<times> string)" where
  "splitHostPort addr =
     (let portMatch = portRegexp_FindStringSubmatch addr in
      case index portMatch 1 of
        Inl e \<Rightarrow> Inl e
      | Inr host \<Rightarrow>
         (case index portMatch 3 of
            Inl e \<Rightarrow> Inl e
          | Inr port \<Rightarrow>
             (let isIPv6 = Contains host (CHR '':'') in
              if isIPv6 \<and> bracketRegexp_MatchString host then
                Inr (TrimSuffix (TrimPrefix host (CHR ''['')) (CHR '']''), port)
              else if port = [] then Inr (host, port)
              else if isCIDR host then Inr (host, port)
              else if isIPv6 then
                (if int (length port) > 4 then Inr (host, port)
                 else
                   (let hostPort = host @ '':'' @ port in
                    if ParseIP hostPort \<noteq> None then Inr (hostPort, [])
                    else Inr (host, port)))
              else Inr (host, port))))"

section \<open>util.go: expandCIDR\<close>

text \<open>
  \<open>expandCIDR\<close> returns an unbuffered channel and starts a goroutine that sends the
  addresses on it and then closes it. The goroutine is the only sender and the caller the
  only receiver, so the values received are those of the goroutine's loop, in its order.
  The channel is modelled by the state of that goroutine:
  \<^item> \<open>Loop4 ip32 mask32 mask\<close>: in the IPv4 loop, about to test \<open>mask <= ^mask32\<close>;
  \<^item> \<open>Loop6 fixed ip64 mask64 mask\<close>: in the IPv6 loop, with the eight fixed bytes in the
    buffer, about to test \<open>mask <= ^mask64\<close>;
  \<^item> \<open>Dead e\<close>: the goroutine panicked before its loop;
  \<^item> \<open>NoGoroutine\<close>: the \<open>switch\<close> started none (\<open>mBits\<close> neither 32 nor 128).
  The loop counters are \<open>uint32\<close> and \<open>uint64\<close>: \<open>mask++\<close> wraps around.
\<close>

datatype sender =
    Loop4 "32 word" "32 word" "32 word"
  | Loop6 "byte list" "64 word" "64 word" "64 word"
  | Dead panic
  | NoGoroutine

datatype error = ParseError string | MaskRangeError string

text \<open>One iteration of the goroutine's loop: the bytes in the buffer when it is sent, and
  the state after \<open>mask++\<close>; \<open>None\<close> when the loop is over (and the channel is closed) or
  there is no loop.\<close>

fun sender_step :: "sender \<Rightarrow> (byte list \<times> sender) option" where
  "sender_step (Loop4 ip32 mask32 m) =
     (if m \<le> NOT mask32 then Some (bytes32 (ip32 XOR m), Loop4 ip32 mask32 (m + 1)) else None)"
| "sender_step (Loop6 fixed ip64 mask64 m) =
     (if m \<le> NOT mask64 then Some (fixed @ bytes64 (ip64 XOR m), Loop6 fixed ip64 mask64 (m + 1))
      else None)"
| "sender_step (Dead e) = None"
| "sender_step NoGoroutine = None"

text \<open>A receive on the channel: a value and the channel afterwards, or the channel is
  closed, or the receiver blocks for ever, or the program has crashed.\<close>

datatype recv = Value string sender | ChanClosed | Blocked | Crash panic

definition chan_recv :: "sender \<Rightarrow> recv" where
  "chan_recv ch =
     (case ch of
        Dead e \<Rightarrow> Crash e
      | NoGoroutine \<Rightarrow> Blocked
      | _ \<Rightarrow> (case sender_step ch of
                None \<Rightarrow> ChanClosed
              | Some (b, ch') \<Rightarrow> Value (IP_String b) ch'))"

definition start4 :: "IPNet \<Rightarrow> sender" where
  "start4 ipnet =
     (case Uint32 (IP ipnet) of
        Inl e \<Rightarrow> Dead e
      | Inr ip32 \<Rightarrow>
         (case Uint32 (Mask ipnet) of
            Inl e \<Rightarrow> Dead e
          | Inr mask32 \<Rightarrow> Loop4 ip32 mask32 0))"

definition start6 :: "IPNet \<Rightarrow> sender" where
  "start6 ipnet =
     (case sliceFrom (IP ipnet) 8 of
        Inl e \<Rightarrow> Dead e
      | Inr iplo \<Rightarrow>
     (case Uint64 iplo of
        Inl e \<Rightarrow> Dead e
      | Inr ip64 \<Rightarrow>
     (case sliceFrom (Mask ipnet) 8 of
        Inl e \<Rightarrow> Dead e
      | Inr masklo \<Rightarrow>
     (case Uint64 masklo of
        Inl e \<Rightarrow> Dead e
      | Inr mask64 \<Rightarrow>
     (case sliceTo (IP ipnet) 8 of
        Inl e \<Rightarrow> Dead e
      | Inr fixed \<Rightarrow> Loop6 fixed ip64 mask64 0)))))"

definition expandCIDR :: "string \<Rightarrow> error + sender" where
  "expandCIDR CIDR =
     (case ParseCIDR CIDR of
        None \<Rightarrow> Inl (ParseError CIDR)
      | Some ipnet \<Rightarrow>
         (case Size (Mask ipnet) of (mOnes, mBits) \<Rightarrow>
            if mBits = 128 \<and> mOnes < 64 then Inl (MaskRangeError CIDR)
            else Inr (if mBits = 32 then start4 ipnet
                      else if mBits = 128 then start6 ipnet
                      else NoGoroutine)))"

text \<open>The first \<open>n\<close> values received from a channel (fewer when it is closed before).\<close>

fun chan_take :: "nat \<Rightarrow> sender \<Rightarrow> string list" where
  "chan_take 0 ch = []"
| "chan_take (Suc n) ch =
     (case chan_recv ch of Value ip ch' \<Rightarrow> ip # chan_take n ch' | _ \<Rightarrow> [])"

section \<open>Notions used in the proofs\<close>

text \<open>The invariant of the hextet loop: \<open>i\<close> bytes are written, \<open>i\<close> is even and at most 16.\<close>

definition v6inv :: "byte list \<Rightarrow> int \<Rightarrow> bool" where
  "v6inv ip i \<longleftrightarrow> length ip = nat i \<and> 0 \<le> i \<and> i \<le> 16 \<and> even i"

section \<open>Properties of isDomainName\<close>

lemma isDomainName_loop_total:
  "0 \<le> i \<Longrightarrow> \<exists>b. isDomainName_loop s i lastc nonNumeric partlen parts = Inr b"
proof (induction s i lastc nonNumeric partlen parts rule: isDomainName_loop.induct)
  case (1 s i lastc nonNumeric partlen parts)
  show ?case
  proof (cases "i < int (length s)")
    case False
    then show ?thesis
      by (subst isDomainName_loop.simps) auto
  next
    case True
    with \<open>0 \<le> i\<close> have ix: "index s i = Inr (s ! nat i)"
      by (simp add: index_def)
    from \<open>0 \<le> i\<close> have nx: "0 \<le> i + 1" by simp
    show ?thesis
      by (subst isDomainName_loop.simps) (use "1.IH" True ix nx in \<open>auto\<close>)
  qed
qed

lemma isDomainName_total: "\<exists>b. isDomainName s = Inr b"
proof -
  have loop: "\<exists>b. isDomainName_loop s 0 (CHR ''.'') False 0 0 = Inr b"
    by (rule isDomainName_loop_total) simp
  have last_ok: "int (length s) = 254 \<Longrightarrow> index s (int (length s) - 1) = Inr (s ! 253)"
    by (simp add: index_def)
  show ?thesis
    using loop last_ok by (auto simp: isDomainName_def Let_def)
qed

section \<open>Properties of splitHostPort\<close>

text \<open>The equations that evaluate the parsers and \<open>splitHostPort\<close> on a literal.\<close>

lemmas net_eval =
  ParseIP_def parseIPv6_def parseIPv6_loop.simps parseIPv6_finish_def parseIPv4_def
  parseIPv4_loop.simps xtoi_def dtoi_def isDigit_def inRange_def byteDiff_def big_def
  IPv4len_def IPv6len_def IPv4_def v4InV6Prefix_def

lemmas splitHostPort_eval =
  splitHostPort_def portRegexp_FindStringSubmatch_def portGroup_def index_def LF_def
  bracketRegexp_MatchString_def Contains_def TrimPrefix_def TrimSuffix_def isCIDR_def

lemma isDigit_LF: "\<not> isDigit LF"
  by (simp add: isDigit_def inRange_def LF_def)

lemma isDigit_colon: "\<not> isDigit (CHR '':'')"
  by (simp add: isDigit_def inRange_def)

lemma isDigit_rbracket: "\<not> isDigit (CHR '']'')"
  by (simp add: isDigit_def inRange_def)

lemma LF_not_colon: "LF \<noteq> CHR '':''"
  by (simp add: LF_def)

lemma portGroup_Some:
  "portGroup rest = Some p \<longleftrightarrow> rest = CHR '':'' # p \<and> p \<noteq> [] \<and> list_all isDigit p"
  by (auto simp: portGroup_def split: list.splits)

lemma portGroup_LF: "LF \<in> set rest \<Longrightarrow> portGroup rest = None"
proof (cases "portGroup rest")
  case (Some p)
  assume "LF \<in> set rest"
  with Some have "LF \<in> set p"
    by (auto simp: portGroup_Some LF_not_colon)
  with Some show ?thesis
    by (auto simp: portGroup_Some list_all_iff isDigit_LF)
qed simp

lemma portRegexp_from_LF: "LF \<in> set rest \<Longrightarrow> portRegexp_from h rest = None"
proof (induction rest arbitrary: h)
  case Nil
  then show ?case by simp
next
  case (Cons c cs)
  have "portGroup (c # cs) = None"
    using Cons.prems by (rule portGroup_LF)
  with Cons show ?case by auto
qed

lemma portRegexp_from_result:
  "portRegexp_from h rest = Some (h', p) \<Longrightarrow>
     LF \<notin> set rest \<and> (p = [] \<and> h' = h @ rest \<or>
       p \<noteq> [] \<and> list_all isDigit p \<and> h @ rest = h' @ CHR '':'' # p)"
proof (induction rest arbitrary: h)
  case Nil
  then show ?case by simp
next
  case (Cons c cs)
  show ?case
  proof (cases "portGroup (c # cs)")
    case (Some q)
    with Cons.prems have "h' = h" "p = q" by simp_all
    moreover from Some have "c # cs = CHR '':'' # q" "q \<noteq> []" "list_all isDigit q"
      by (simp_all add: portGroup_Some)
    moreover from Some have "LF \<notin> set (c # cs)"
      using portGroup_LF by fastforce
    ultimately show ?thesis by simp
  next
    case None
    with Cons.prems have c: "c \<noteq> LF" and r: "portRegexp_from (h @ [c]) cs = Some (h', p)"
      by (simp_all split: if_splits)
    from Cons.IH [OF r] c show ?thesis by auto
  qed
qed

lemma portRegexp_from_total:
  "LF \<notin> set rest \<Longrightarrow> \<exists>h' p. portRegexp_from h rest = Some (h', p)"
proof (induction rest arbitrary: h)
  case Nil
  then show ?case by simp
next
  case (Cons c cs)
  then show ?case by (cases "portGroup (c # cs)") auto
qed

lemma portRegexp_from_port:
  "LF \<notin> set a \<Longrightarrow> p \<noteq> [] \<Longrightarrow> list_all isDigit p \<Longrightarrow>
     portRegexp_from h (a @ CHR '':'' # p) = Some (h @ a, p)"
proof (induction a arbitrary: h)
  case Nil
  then show ?case by (simp add: portGroup_def)
next
  case (Cons c a)
  have "portGroup (c # a @ CHR '':'' # p) = None"
    by (auto simp: portGroup_def list_all_iff isDigit_colon)
  with Cons show ?case by auto
qed

lemma portRegexp_from_noport:
  "LF \<notin> set a \<Longrightarrow> a \<noteq> [] \<Longrightarrow> \<not> isDigit (last a) \<Longrightarrow>
     portRegexp_from h a = Some (h @ a, [])"
proof (induction a arbitrary: h)
  case Nil
  then show ?case by simp
next
  case (Cons c a)
  have g: "portGroup (c # a) = None"
    using Cons.prems by (auto simp: portGroup_def list_all_iff)
  show ?case
  proof (cases "a = []")
    case True
    with g Cons.prems show ?thesis by auto
  next
    case False
    with Cons have "portRegexp_from (h @ [c]) a = Some ((h @ [c]) @ a, [])"
      by auto
    with g Cons.prems show ?thesis by auto
  qed
qed

lemma FindStringSubmatch_nil:
  "portRegexp_FindStringSubmatch addr = [] \<longleftrightarrow> LF \<in> set addr"
proof
  assume "portRegexp_FindStringSubmatch addr = []"
  then have "portRegexp_from [] addr = None"
    by (auto simp: portRegexp_FindStringSubmatch_def split: option.splits)
  then show "LF \<in> set addr"
    using portRegexp_from_total [of addr "[]"] by auto
next
  assume "LF \<in> set addr"
  then show "portRegexp_FindStringSubmatch addr = []"
    by (simp add: portRegexp_FindStringSubmatch_def portRegexp_from_LF)
qed

lemma splitHostPort_panic_iff:
  "splitHostPort addr = Inl IndexOutOfRange \<longleftrightarrow> LF \<in> set addr"
proof (cases "portRegexp_from [] addr")
  case None
  then have "LF \<in> set addr"
    using portRegexp_from_total [of addr "[]"] by auto
  moreover from None have "splitHostPort addr = Inl IndexOutOfRange"
    by (simp add: splitHostPort_def portRegexp_FindStringSubmatch_def index_def)
  ultimately show ?thesis by simp
next
  case (Some hp)
  obtain h p where hp: "hp = (h, p)" by (cases hp)
  from Some hp have "LF \<notin> set addr"
    using portRegexp_from_result [of "[]" addr h p] by simp
  moreover from Some hp have "splitHostPort addr \<noteq> Inl IndexOutOfRange"
    by (simp add: splitHostPort_def portRegexp_FindStringSubmatch_def index_def Let_def)
  ultimately show ?thesis by simp
qed

lemma splitHostPort_match:
  assumes "portRegexp_from [] addr = Some (host, port)"
  shows "splitHostPort addr =
     (if Contains host (CHR '':'') \<and> bracketRegexp_MatchString host then
        Inr (TrimSuffix (TrimPrefix host (CHR ''['')) (CHR '']''), port)
      else if port = [] then Inr (host, port)
      else if isCIDR host then Inr (host, port)
      else if Contains host (CHR '':'') then
        (if int (length port) > 4 then Inr (host, port)
         else if ParseIP (host @ '':'' @ port) \<noteq> None then Inr (host @ '':'' @ port, [])
         else Inr (host, port))
      else Inr (host, port))"
  by (simp add: splitHostPort_def portRegexp_FindStringSubmatch_def assms index_def Let_def)

lemma bracketed_host:
  assumes "CHR '':'' \<in> set v6" and "LF \<notin> set v6"
  shows "Contains (''['' @ v6 @ '']'') (CHR '':'')"
    and "bracketRegexp_MatchString (''['' @ v6 @ '']'')"
    and "TrimSuffix (TrimPrefix (''['' @ v6 @ '']'') (CHR ''['')) (CHR '']'') = v6"
  using assms
  by (simp_all add: Contains_def bracketRegexp_MatchString_def TrimPrefix_def TrimSuffix_def
      butlast_append)

lemma splitHostPort_bracketed_port:
  assumes "CHR '':'' \<in> set v6" and "LF \<notin> set v6" and "p \<noteq> []" and "list_all isDigit p"
  shows "splitHostPort (''['' @ v6 @ '']:'' @ p) = Inr (v6, p)"
proof -
  define host where "host = ''['' @ v6 @ '']''"
  define addr where "addr = ''['' @ v6 @ '']:'' @ p"
  have "portRegexp_from [] (host @ CHR '':'' # p) = Some ([] @ host, p)"
    using assms unfolding host_def by (intro portRegexp_from_port) (auto simp: LF_def)
  then have m: "portRegexp_from [] addr = Some (host, p)"
    by (simp add: addr_def host_def)
  have h: "Contains host (CHR '':'')" "bracketRegexp_MatchString host"
    "TrimSuffix (TrimPrefix host (CHR ''['')) (CHR '']'') = v6"
    unfolding host_def by (rule bracketed_host [OF assms(1,2)])+
  show ?thesis
    unfolding addr_def [symmetric]
    by (subst splitHostPort_match [OF m]) (simp add: h)
qed

lemma splitHostPort_bracketed_noport:
  assumes "CHR '':'' \<in> set v6" and "LF \<notin> set v6"
  shows "splitHostPort (''['' @ v6 @ '']'') = Inr (v6, [])"
proof -
  define host where "host = ''['' @ v6 @ '']''"
  have "portRegexp_from [] host = Some ([] @ host, [])"
    using assms unfolding host_def
    by (intro portRegexp_from_noport) (auto simp: LF_def isDigit_rbracket)
  then have m: "portRegexp_from [] host = Some (host, [])"
    by simp
  have h: "Contains host (CHR '':'')" "bracketRegexp_MatchString host"
    "TrimSuffix (TrimPrefix host (CHR ''['')) (CHR '']'') = v6"
    unfolding host_def by (rule bracketed_host [OF assms])+
  show ?thesis
    unfolding host_def [symmetric]
    by (subst splitHostPort_match [OF m]) (simp add: h)
qed

section \<open>Properties of the address parsers and of expandCIDR\<close>

subsection \<open>The size of a mask built by CIDRMask\<close>

lemma CIDRMask_loop_length: "length (CIDRMask_loop l n) = l"
  by (induction l arbitrary: n) auto

lemma CIDRMask_loop_zero: "\<not> list_ex (\<lambda>b. b \<noteq> 0) (CIDRMask_loop l 0)"
  by (induction l) auto

lemma small_cases: "k < 8 \<Longrightarrow> k = 0 \<or> k = 1 \<or> k = 2 \<or> k = 3 \<or> k = 4 \<or> k = 5 \<or> k = 6 \<or> k = (7::nat)"
  by arith

lemma partial_byte_not_ff:
  assumes "k < 8"
  shows "NOT (drop_bit k (0xff :: byte)) \<noteq> 0xff"
  using small_cases [OF assms] by (elim disjE; simp)

lemma ones_loop_partial_byte:
  assumes "k < 8"
  shows "ones_loop (NOT (drop_bit k (0xff :: byte))) n = (0, n + int k)"
  using small_cases [OF assms] by (elim disjE; simp add: ones_loop.simps)

lemma simpleMaskLength_from_CIDRMask_loop:
  "k \<le> 8 * l \<Longrightarrow> simpleMaskLength_from n (CIDRMask_loop l k) = n + int k"
proof (induction l arbitrary: n k)
  case 0
  then show ?case by simp
next
  case (Suc l)
  show ?case
  proof (cases "k \<ge> 8")
    case True
    with Suc.prems have "k - 8 \<le> 8 * l" by simp
    from Suc.IH [OF this, of "n + 8"] True show ?thesis by simp
  next
    case False
    then have k: "k < 8" by simp
    show ?thesis
      using k by (simp add: partial_byte_not_ff ones_loop_partial_byte CIDRMask_loop_zero)
  qed
qed

lemma Size_CIDRMask:
  assumes "0 \<le> p" and "p \<le> bits" and "bits = 32 \<or> bits = 128"
  shows "Size (CIDRMask p bits) = (p, bits)"
proof -
  have l: "CIDRMask p bits = CIDRMask_loop (nat (bits div 8)) (nat p)"
    using assms by (auto simp: CIDRMask_def IPv4len_def IPv6len_def)
  have "nat p \<le> 8 * nat (bits div 8)" using assms by auto
  then have "simpleMaskLength (CIDRMask p bits) = p"
    using assms(1) by (simp add: l simpleMaskLength_def simpleMaskLength_from_CIDRMask_loop)
  moreover have "int (length (CIDRMask p bits)) * 8 = bits"
    using assms by (auto simp: l CIDRMask_loop_length)
  ultimately show ?thesis
    using assms(1) by (simp add: Size_def Let_def)
qed

subsection \<open>The parsers return 16 bytes\<close>

lemma parseIPv4_loop_length:
  "parseIPv4_loop i s p = Some ip \<Longrightarrow> length ip = 16 \<and> take 12 ip = v4InV6Prefix"
proof (induction i s p rule: parseIPv4_loop.induct)
  case (1 i s p)
  show ?case
  proof (cases "i < IPv4len")
    case False
    with "1.prems" have "ip = IPv4 (p ! 0) (p ! 1) (p ! 2) (p ! 3)"
      by (subst (asm) parseIPv4_loop.simps) (simp split: if_splits)
    then show ?thesis by (simp add: IPv4_def v4InV6Prefix_def)
  next
    case True
    define s1 where "s1 = (if i > 0 then tl s else s)"
    obtain n c ok where d: "dtoi s1 = (n, c, ok)" by (cases "dtoi s1")
    from "1.prems" True d have c1: "length s \<noteq> 0" and c2: "\<not> (i > 0 \<and> hd s \<noteq> CHR ''.'')"
      and c3: "\<not> (\<not> ok \<or> n > 0xFF)"
      and r: "parseIPv4_loop (i + 1) (drop (nat c) s1) (p @ [word_of_int n]) = Some ip"
      by (subst (asm) parseIPv4_loop.simps; simp add: s1_def Let_def split: if_splits)+
    show ?thesis
      by (rule "1.IH" [OF True c1 c2 s1_def d [symmetric] refl _ r]) (use c3 in simp)
  qed
qed

lemma parseIPv4_length:
  "parseIPv4 s = Some ip \<Longrightarrow> length ip = 16 \<and> take 12 ip = v4InV6Prefix"
  unfolding parseIPv4_def by (rule parseIPv4_loop_length)

lemma v6inv_step: "v6inv ip i \<Longrightarrow> i < 16 \<Longrightarrow> v6inv (ip @ [a, b]) (i + 2)"
  by (auto simp: v6inv_def nat_add_distrib)

lemma v6inv_step4:
  "v6inv ip i \<Longrightarrow> \<not> i + 4 > 16 \<Longrightarrow> length ip4 = 16 \<Longrightarrow> v6inv (ip @ drop 12 ip4) (i + 4)"
  by (auto simp: v6inv_def nat_add_distrib)

lemma parseIPv6_loop_inv:
  "parseIPv6_loop ip i e s = Some st \<Longrightarrow> v6inv ip i \<Longrightarrow> v6inv (v6_ip st) (v6_i st)"
proof (induction "nat (IPv6len - i)" arbitrary: ip i e s rule: less_induct)
  case less
  note IH = less.hyps
  show ?case
  proof (cases "i < IPv6len")
    case False
    with less.prems show ?thesis
      by (subst (asm) parseIPv6_loop.simps) auto
  next
    case True
    then have i16: "i < 16" by (simp add: IPv6len_def)
    have rec: "\<And>ip' e' s'. parseIPv6_loop ip' (i + 2) e' s' = Some st \<Longrightarrow>
        v6inv ip' (i + 2) \<Longrightarrow> v6inv (v6_ip st) (v6_i st)"
      by (rule IH) (use True in \<open>auto simp: IPv6len_def\<close>)
    obtain n c ok where x: "xtoi s = (n, c, ok)" by (cases "xtoi s")
    show ?thesis
    proof (cases "c < int (length s) \<and> s ! nat c = CHR ''.''")
      case dot: True
      with less.prems(1) True x obtain ip4 where "parseIPv4 s = Some ip4"
        and g: "\<not> i + 4 > 16" and st: "st = \<lparr>v6_ip = ip @ drop 12 ip4, v6_i = i + 4,
                             v6_ellipsis = e, v6_s = []\<rparr>"
        by (subst (asm) parseIPv6_loop.simps)
           (auto simp: IPv4len_def IPv6len_def split: if_splits option.splits)
      then show ?thesis
        using v6inv_step4 [OF less.prems(2) g] parseIPv4_length by auto
    next
      case nodot: False
      define ip' where "ip' = ip @ [word_of_int (n div 256), word_of_int n :: byte]"
      have inv': "v6inv ip' (i + 2)"
        unfolding ip'_def by (rule v6inv_step [OF less.prems(2) i16])
      from less.prems(1) True x nodot
      have "st = \<lparr>v6_ip = ip', v6_i = i + 2, v6_ellipsis = e, v6_s = drop (nat c) s\<rparr>
          \<or> st = \<lparr>v6_ip = ip', v6_i = i + 2, v6_ellipsis = i + 2, v6_s = tl (tl (drop (nat c) s))\<rparr>
          \<or> (\<exists>e' s'. parseIPv6_loop ip' (i + 2) e' s' = Some st)"
        by (subst (asm) parseIPv6_loop.simps)
           (auto simp add: Let_def ip'_def split: if_splits)
      then show ?thesis
        using inv' rec by auto
    qed
  qed
qed

lemma parseIPv6_finish_length:
  "parseIPv6_finish st = Some ip \<Longrightarrow> v6inv (v6_ip st) (v6_i st) \<Longrightarrow> length ip = 16"
  by (auto simp: parseIPv6_finish_def v6inv_def IPv6len_def split: if_splits)

lemma v6inv_start: "v6inv [] 0"
  by (simp add: v6inv_def)

lemma parseIPv6_length: "parseIPv6 s = Some ip \<Longrightarrow> length ip = 16"
  by (auto simp: parseIPv6_def split: if_splits option.splits
      dest!: parseIPv6_loop_inv [OF _ v6inv_start] parseIPv6_finish_length)

subsection \<open>ParseCIDR and expandCIDR on a literal\<close>

lemma IndexByteString_from_first:
  "c \<notin> set a \<Longrightarrow> IndexByteString_from i (a @ c # b) c = i + int (length a)"
  by (induction a arbitrary: i) auto

lemma IndexByteString_from_none: "c \<notin> set s \<Longrightarrow> IndexByteString_from i s c = - 1"
  by (induction s arbitrary: i) auto

lemma IndexByteString_first:
  "c \<notin> set a \<Longrightarrow> IndexByteString (a @ c # b) c = int (length a)"
  by (simp add: IndexByteString_def IndexByteString_from_first)

lemma IndexByteString_neg: "IndexByteString s c < 0 \<longleftrightarrow> c \<notin> set s"
proof
  assume "IndexByteString s c < 0"
  show "c \<notin> set s"
  proof
    assume "c \<in> set s"
    then obtain a b where "s = a @ c # b" "c \<notin> set a"
      by (auto dest: split_list_first)
    with \<open>IndexByteString s c < 0\<close> show False
      by (simp add: IndexByteString_first)
  qed
next
  assume "c \<notin> set s"
  then show "IndexByteString s c < 0"
    by (simp add: IndexByteString_def IndexByteString_from_none)
qed

text \<open>ParseCIDR on a literal with its first slash made explicit.\<close>

lemma ParseCIDR_literal:
  assumes "CHR ''/'' \<notin> set addr"
  shows "ParseCIDR (addr @ CHR ''/'' # m) =
     (case dtoi m of (n, j, ok) \<Rightarrow>
        (case (if parseIPv4 addr = None then parseIPv6 addr else parseIPv4 addr) of
           None \<Rightarrow> None
         | Some ipb \<Rightarrow>
            if \<not> ok \<or> j \<noteq> int (length m) \<or> n < 0
               \<or> n > 8 * (if parseIPv4 addr = None then IPv6len else IPv4len) then None
            else Some \<lparr>IP = IP_Mask ipb
                           (CIDRMask n (8 * (if parseIPv4 addr = None then IPv6len else IPv4len))),
                       Mask = CIDRMask n (8 * (if parseIPv4 addr = None then IPv6len else IPv4len))\<rparr>))"
proof -
  have i: "IndexByteString (addr @ CHR ''/'' # m) (CHR ''/'') = int (length addr)"
    using IndexByteString_first [OF assms, of m] by simp
  have t: "take (nat (int (length addr))) (addr @ CHR ''/'' # m) = addr" by simp
  have d: "drop (nat (int (length addr) + 1)) (addr @ CHR ''/'' # m) = m"
    by (simp add: nat_add_distrib)
  show ?thesis
    unfolding ParseCIDR_def Let_def i t d
    by (auto split: prod.splits option.splits)
qed

lemma CIDRMask_length:
  "0 \<le> p \<Longrightarrow> p \<le> bits \<Longrightarrow> bits = 32 \<or> bits = 128 \<Longrightarrow>
     int (length (CIDRMask p bits)) * 8 = bits"
  by (auto simp: CIDRMask_def IPv4len_def IPv6len_def CIDRMask_loop_length)

lemma IP_Mask_v4_length:
  "length ip = 16 \<Longrightarrow> take 12 ip = v4InV6Prefix \<Longrightarrow> length m = 4 \<Longrightarrow> length (IP_Mask ip m) = 4"
  by (simp add: IP_Mask_def)

lemma IP_Mask_v6_length:
  "length ip = 16 \<Longrightarrow> length m = 16 \<Longrightarrow> length (IP_Mask ip m) = 16"
  by (simp add: IP_Mask_def)

lemma Uint32_ok: "length b = 4 \<Longrightarrow> \<exists>w. Uint32 b = Inr w"
  by (simp add: Uint32_def index_def)

lemma Uint64_ok: "length b = 8 \<Longrightarrow> \<exists>w. Uint64 b = Inr w"
  by (simp add: Uint64_def index_def)

lemma start4_ok:
  "length (IP n) = 4 \<Longrightarrow> length (Mask n) = 4 \<Longrightarrow> \<exists>ip32 mask32. start4 n = Loop4 ip32 mask32 0"
  using Uint32_ok [of "IP n"] Uint32_ok [of "Mask n"] by (auto simp: start4_def)

lemma start6_ok:
  "length (IP n) = 16 \<Longrightarrow> length (Mask n) = 16 \<Longrightarrow>
     \<exists>fixed ip64 mask64. start6 n = Loop6 fixed ip64 mask64 0"
  using Uint64_ok [of "drop 8 (IP n)"] Uint64_ok [of "drop 8 (Mask n)"]
  by (auto simp: start6_def sliceFrom_def sliceTo_def)

lemma dtoi_loop_nonneg: "dtoi_loop s n i = (n', j, ok) \<Longrightarrow> 0 \<le> n \<Longrightarrow> 0 \<le> n'"
proof (induction s arbitrary: n i)
  case Nil
  then show ?case by (auto split: if_splits)
next
  case (Cons c cs)
  have b: "0 \<le> n * 10 + byteDiff c (CHR ''0'')"
    using Cons.prems(2) by (simp add: byteDiff_def)
  from Cons.prems(1) show ?case
    using Cons.IH [OF _ b] Cons.prems(2)
    by (auto simp: Let_def big_def split: if_splits)
qed

lemma dtoi_nonneg: "dtoi s = (n, j, ok) \<Longrightarrow> 0 \<le> n"
  using dtoi_loop_nonneg [of s 0 0 n j ok] by (simp add: dtoi_def)

lemma expandCIDR_v4_literal:
  assumes "CHR ''/'' \<notin> set addr" and "dtoi m = (p, int (length m), True)"
    and "parseIPv4 addr = Some ip4" and "p \<le> 32"
  shows "\<exists>ip32 mask32. expandCIDR (addr @ ''/'' @ m) = Inr (Loop4 ip32 mask32 0)"
proof -
  have p0: "0 \<le> p" using assms(2) by (rule dtoi_nonneg)
  define n where "n = \<lparr>IP = IP_Mask ip4 (CIDRMask p 32), Mask = CIDRMask p 32\<rparr>"
  have pc: "ParseCIDR (addr @ CHR ''/'' # m) = Some n"
    using assms p0 by (simp add: ParseCIDR_literal n_def IPv4len_def)
  have sz: "Size (Mask n) = (p, 32)"
    using p0 assms(4) by (simp add: n_def Size_CIDRMask)
  have lm: "length (Mask n) = 4"
    using CIDRMask_length [of p 32] p0 assms(4) by (simp add: n_def)
  have li: "length (IP n) = 4"
    using parseIPv4_length [OF assms(3)] lm by (simp add: n_def IP_Mask_v4_length)
  from start4_ok [OF li lm] show ?thesis
    by (auto simp: expandCIDR_def pc sz)
qed

lemma expandCIDR_v6_literal:
  assumes "CHR ''/'' \<notin> set addr" and "dtoi m = (p, int (length m), True)"
    and "parseIPv4 addr = None" and "parseIPv6 addr = Some ip6" and "p \<le> 128"
  shows "if p < 64 then expandCIDR (addr @ ''/'' @ m) = Inl (MaskRangeError (addr @ ''/'' @ m))
         else \<exists>fixed ip64 mask64. expandCIDR (addr @ ''/'' @ m) = Inr (Loop6 fixed ip64 mask64 0)"
proof -
  have p0: "0 \<le> p" using assms(2) by (rule dtoi_nonneg)
  define n where "n = \<lparr>IP = IP_Mask ip6 (CIDRMask p 128), Mask = CIDRMask p 128\<rparr>"
  have pc: "ParseCIDR (addr @ CHR ''/'' # m) = Some n"
    using assms p0 by (simp add: ParseCIDR_literal n_def IPv6len_def)
  have sz: "Size (Mask n) = (p, 128)"
    using p0 assms(5) by (simp add: n_def Size_CIDRMask)
  have lm: "length (Mask n) = 16"
    using CIDRMask_length [of p 128] p0 assms(5) by (simp add: n_def)
  have li: "length (IP n) = 16"
    using parseIPv6_length [OF assms(4)] lm by (simp add: n_def IP_Mask_v6_length)
  from start6_ok [OF li lm] show ?thesis
    by (auto simp: expandCIDR_def pc sz)
qed

lemma ParseCIDR_Some_iff:
  "ParseCIDR s \<noteq> None \<longleftrightarrow>
     (\<exists>addr m p. s = addr @ ''/'' @ m \<and> CHR ''/'' \<notin> set addr
        \<and> dtoi m = (p, int (length m), True)
        \<and> (parseIPv4 addr \<noteq> None \<and> p \<le> 32
           \<or> parseIPv4 addr = None \<and> parseIPv6 addr \<noteq> None \<and> p \<le> 128))"
proof
  assume ok: "ParseCIDR s \<noteq> None"
  then have "\<not> IndexByteString s (CHR ''/'') < 0"
    by (auto simp: ParseCIDR_def Let_def)
  then have "CHR ''/'' \<in> set s" by (simp add: IndexByteString_neg)
  then obtain addr m where s: "s = addr @ ''/'' @ m" and a: "CHR ''/'' \<notin> set addr"
    by (auto dest: split_list_first)
  obtain p j b where d: "dtoi m = (p, j, b)" by (cases "dtoi m")
  from ok show "\<exists>addr m p. s = addr @ ''/'' @ m \<and> CHR ''/'' \<notin> set addr
        \<and> dtoi m = (p, int (length m), True)
        \<and> (parseIPv4 addr \<noteq> None \<and> p \<le> 32
           \<or> parseIPv4 addr = None \<and> parseIPv6 addr \<noteq> None \<and> p \<le> 128)"
    unfolding s append_Cons append_Nil ParseCIDR_literal [OF a] d
    by (intro exI [of _ addr] exI [of _ m] exI [of _ p])
       (auto simp: a d IPv4len_def IPv6len_def split: option.splits if_splits)
next
  assume "\<exists>addr m p. s = addr @ ''/'' @ m \<and> CHR ''/'' \<notin> set addr
        \<and> dtoi m = (p, int (length m), True)
        \<and> (parseIPv4 addr \<noteq> None \<and> p \<le> 32
           \<or> parseIPv4 addr = None \<and> parseIPv6 addr \<noteq> None \<and> p \<le> 128)"
  then obtain addr m p where s: "s = addr @ ''/'' @ m" and a: "CHR ''/'' \<notin> set addr"
    and d: "dtoi m = (p, int (length m), True)"
    and c: "parseIPv4 addr \<noteq> None \<and> p \<le> 32
           \<or> parseIPv4 addr = None \<and> parseIPv6 addr \<noteq> None \<and> p \<le> 128"
    by blast
  have "0 \<le> p" using d by (rule dtoi_nonneg)
  with c show "ParseCIDR s \<noteq> None"
    unfolding s append_Cons append_Nil ParseCIDR_literal [OF a] d
    by (auto simp: IPv4len_def IPv6len_def)
qed

section \<open>Claims about isDomainName\<close>

text \<open>
  C8. \<open>isDomainName\<close> is a total predicate on strings: for every string it returns a
  boolean and never panics (it has no state to change, being a function of its argument).
  It accepts \<open>test.com.ru\<close> and rejects \<open>test\<close> (a single label), \<open>test-.com\<close> (a label
  ending in a hyphen) and \<open>127.0.0.1\<close> (no letter or hyphen).
\<close>

theorem isDomainName_total_and_examples:
  "(\<forall>s. \<exists>b. isDomainName s = Inr b)
   \<and> isDomainName ''test.com.ru'' = Inr True
   \<and> isDomainName ''test'' = Inr False
   \<and> isDomainName ''test-.com'' = Inr False
   \<and> isDomainName ''127.0.0.1'' = Inr False"
proof (intro conjI allI)
  fix s show "\<exists>b. isDomainName s = Inr b" by (rule isDomainName_total)
next
  show "isDomainName ''test.com.ru'' = Inr True"
    by (simp add: isDomainName_def isDomainName_loop.simps index_def isLetter_def isDigit_def inRange_def)
next
  show "isDomainName ''test'' = Inr False"
    by (simp add: isDomainName_def isDomainName_loop.simps index_def isLetter_def isDigit_def inRange_def)
next
  show "isDomainName ''test-.com'' = Inr False"
    by (simp add: isDomainName_def isDomainName_loop.simps index_def isLetter_def isDigit_def inRange_def)
next
  show "isDomainName ''127.0.0.1'' = Inr False"
    by (simp add: isDomainName_def isDomainName_loop.simps index_def isLetter_def isDigit_def inRange_def)
qed

section \<open>Claims about splitHostPort\<close>

text \<open>
  C3. On \<open>1:1:1:1:1:1:1:1:80\<close> (eight hextets and a trailing numeric group)
  \<open>splitHostPort\<close> returns the host \<open>1:1:1:1:1:1:1:1\<close> and the port \<open>80\<close>; on
  \<open>1:1:1:1:1:1:1:80\<close>, which as a whole parses as an IPv6 literal, it returns the whole
  string as host with an empty port.
\<close>

theorem splitHostPort_ipv6_ambiguity:
  "splitHostPort ''1:1:1:1:1:1:1:1:80'' = Inr (''1:1:1:1:1:1:1:1'', ''80'')
   \<and> splitHostPort ''1:1:1:1:1:1:1:80'' = Inr (''1:1:1:1:1:1:1:80'', '''')"
proof
  show "splitHostPort ''1:1:1:1:1:1:1:1:80'' = Inr (''1:1:1:1:1:1:1:1'', ''80'')"
    by (simp add: splitHostPort_eval net_eval)
  show "splitHostPort ''1:1:1:1:1:1:1:80'' = Inr (''1:1:1:1:1:1:1:80'', '''')"
    by (simp add: splitHostPort_eval net_eval)
qed

text \<open>
  C4. \<open>splitHostPort\<close> is claimed to return a pair of host and port for every input
  string, and the pair of empty strings for the empty input. The second holds; the first
  does not: on the three-byte input \<open>a\<close>, line feed, \<open>b\<close> the regular expression does not
  match, \<open>portMatch\<close> is \<open>nil\<close> and \<open>portMatch[1]\<close> panics with an index out of range.
\<close>

theorem splitHostPort_line_feed_panics:
  "splitHostPort ''a\<newline>b'' = Inl IndexOutOfRange \<and> splitHostPort '''' = Inr ('''', '''')"
  by (simp add: splitHostPort_eval net_eval)

text \<open>
  C9. For an input \<open>[v6]:p\<close> with a colon in \<open>v6\<close> and \<open>p\<close> a non-empty string of digits,
  \<open>splitHostPort\<close> is claimed to return the host \<open>v6\<close> and the port \<open>p\<close>. That holds when
  \<open>v6\<close> has no line feed (\<open>splitHostPort_bracketed_port\<close>, \<open>splitHostPort_bracketed_noport\<close>),
  but with \<open>v6\<close> a colon followed by a line feed the function panics.
\<close>

theorem splitHostPort_bracketed_line_feed_panics:
  "CHR '':'' \<in> set '':\<newline>'' \<and> list_all isDigit ''80''
   \<and> splitHostPort (''['' @ '':\<newline>'' @ '']:'' @ ''80'') = Inl IndexOutOfRange"
  by (simp add: splitHostPort_eval net_eval)

text \<open>
  C10. Whenever \<open>splitHostPort\<close> returns, the port it returns is either the empty string
  or a non-empty sequence of ASCII digits.
\<close>

theorem splitHostPort_port_empty_or_digits:
  "splitHostPort addr = Inr (host, port) \<Longrightarrow> port = [] \<or> port \<noteq> [] \<and> list_all isDigit port"
proof -
  assume r: "splitHostPort addr = Inr (host, port)"
  show ?thesis
  proof (cases "portRegexp_from [] addr")
    case None
    with r show ?thesis
      by (simp add: splitHostPort_def portRegexp_FindStringSubmatch_def index_def)
  next
    case (Some hp)
    obtain h p where hp: "hp = (h, p)" by (cases hp)
    from Some hp have p: "p = [] \<or> p \<noteq> [] \<and> list_all isDigit p"
      using portRegexp_from_result [of "[]" addr h p] by auto
    from r Some hp have "port = p \<or> port = []"
      by (auto simp: splitHostPort_def portRegexp_FindStringSubmatch_def index_def Let_def
               split: if_splits)
    with p show ?thesis by auto
  qed
qed

text \<open>The claim at the input \<open>1.1.1.1:443\<close>, where the port is \<open>443\<close>.\<close>

theorem splitHostPort_port_empty_or_digits_witness:
  "splitHostPort ''1.1.1.1:443'' = Inr (''1.1.1.1'', ''443'')
   \<and> (''443'' = [] \<or> ''443'' \<noteq> [] \<and> list_all isDigit ''443'')"
proof -
  have r: "splitHostPort ''1.1.1.1:443'' = Inr (''1.1.1.1'', ''443'')"
    by (simp add: splitHostPort_eval net_eval)
  show ?thesis
    by (rule conjI [OF r splitHostPort_port_empty_or_digits [OF r]])
qed

section \<open>Claims about expandCIDR\<close>

text \<open>
  C2. \<open>expandCIDR\<close> returns the parse error for every string that \<open>ParseCIDR\<close> refuses
  (by \<open>ParseCIDR_Some_iff\<close> these are the strings that are not of the form \<open>addr/m\<close> with
  \<open>addr\<close> an IPv4 or IPv6 address and \<open>m\<close> a decimal prefix length within the address
  width). For a literal \<open>addr/m\<close> with \<open>addr\<close> an IPv6 address and prefix length \<open>p\<close> it
  returns the mask error when \<open>p < 64\<close> and succeeds, with the goroutine at the start of the
  IPv6 loop, when \<open>64 \<le> p \<le> 128\<close>; with \<open>addr\<close> an IPv4 address and \<open>p \<le> 32\<close> it succeeds
  with the goroutine at the start of the IPv4 loop.
\<close>

theorem expandCIDR_errors_and_success:
  "(ParseCIDR s = None \<longrightarrow> expandCIDR s = Inl (ParseError s))
   \<and> (CHR ''/'' \<notin> set addr \<and> dtoi m = (p, int (length m), True)
        \<and> parseIPv4 addr = None \<and> parseIPv6 addr \<noteq> None \<and> p < 64
      \<longrightarrow> expandCIDR (addr @ ''/'' @ m) = Inl (MaskRangeError (addr @ ''/'' @ m)))
   \<and> (CHR ''/'' \<notin> set addr \<and> dtoi m = (p, int (length m), True)
        \<and> parseIPv4 addr = None \<and> parseIPv6 addr \<noteq> None \<and> 64 \<le> p \<and> p \<le> 128
      \<longrightarrow> (\<exists>fixed ip64 mask64. expandCIDR (addr @ ''/'' @ m) = Inr (Loop6 fixed ip64 mask64 0)))
   \<and> (CHR ''/'' \<notin> set addr \<and> dtoi m = (p, int (length m), True)
        \<and> parseIPv4 addr \<noteq> None \<and> p \<le> 32
      \<longrightarrow> (\<exists>ip32 mask32. expandCIDR (addr @ ''/'' @ m) = Inr (Loop4 ip32 mask32 0)))"
proof (intro conjI impI)
  assume "ParseCIDR s = None"
  then show "expandCIDR s = Inl (ParseError s)"
    by (simp add: expandCIDR_def)
next
  assume h: "CHR ''/'' \<notin> set addr \<and> dtoi m = (p, int (length m), True)
        \<and> parseIPv4 addr = None \<and> parseIPv6 addr \<noteq> None \<and> p < 64"
  then obtain ip6 where "parseIPv6 addr = Some ip6" by auto
  with h expandCIDR_v6_literal [of addr m p ip6]
  show "expandCIDR (addr @ ''/'' @ m) = Inl (MaskRangeError (addr @ ''/'' @ m))"
    by simp
next
  assume h: "CHR ''/'' \<notin> set addr \<and> dtoi m = (p, int (length m), True)
        \<and> parseIPv4 addr = None \<and> parseIPv6 addr \<noteq> None \<and> 64 \<le> p \<and> p \<le> 128"
  then obtain ip6 where "parseIPv6 addr = Some ip6" by auto
  with h expandCIDR_v6_literal [of addr m p ip6]
  show "\<exists>fixed ip64 mask64. expandCIDR (addr @ ''/'' @ m) = Inr (Loop6 fixed ip64 mask64 0)"
    by simp
next
  assume h: "CHR ''/'' \<notin> set addr \<and> dtoi m = (p, int (length m), True)
        \<and> parseIPv4 addr \<noteq> None \<and> p \<le> 32"
  then obtain ip4 where "parseIPv4 addr = Some ip4" by auto
  with h expandCIDR_v4_literal [of addr m p ip4]
  show "\<exists>ip32 mask32. expandCIDR (addr @ ''/'' @ m) = Inr (Loop4 ip32 mask32 0)"
    by simp
qed

text \<open>The claim at \<open>127..1/0\<close>, \<open>0:f:2:4::/63\<close>, \<open>0:f:2:4::/64\<close> and \<open>192.168.1.13/30\<close>.\<close>

theorem expandCIDR_errors_and_success_witness:
  "(ParseCIDR ''127..1/0'' = None \<and> expandCIDR ''127..1/0'' = Inl (ParseError ''127..1/0''))
   \<and> (parseIPv4 ''0:f:2:4::'' = None \<and> parseIPv6 ''0:f:2:4::'' \<noteq> None
        \<and> dtoi ''63'' = (63, 2, True)
        \<and> expandCIDR (''0:f:2:4::'' @ ''/'' @ ''63'')
            = Inl (MaskRangeError (''0:f:2:4::'' @ ''/'' @ ''63'')))
   \<and> (dtoi ''64'' = (64, 2, True)
        \<and> (\<exists>fixed ip64 mask64.
              expandCIDR (''0:f:2:4::'' @ ''/'' @ ''64'') = Inr (Loop6 fixed ip64 mask64 0)))
   \<and> (parseIPv4 ''192.168.1.13'' \<noteq> None \<and> dtoi ''30'' = (30, 2, True)
        \<and> (\<exists>ip32 mask32.
              expandCIDR (''192.168.1.13'' @ ''/'' @ ''30'') = Inr (Loop4 ip32 mask32 0)))"
proof -
  have s: "ParseCIDR ''127..1/0'' = None" by code_simp
  have a6: "CHR ''/'' \<notin> set ''0:f:2:4::''" "parseIPv4 ''0:f:2:4::'' = None"
    "parseIPv6 ''0:f:2:4::'' \<noteq> None" by code_simp+
  have a4: "CHR ''/'' \<notin> set ''192.168.1.13''" "parseIPv4 ''192.168.1.13'' \<noteq> None"
    by code_simp+
  have d63: "dtoi ''63'' = (63, 2, True)" and d64: "dtoi ''64'' = (64, 2, True)"
    and d30: "dtoi ''30'' = (30, 2, True)" by code_simp+
  note T = expandCIDR_errors_and_success
  have c1: "expandCIDR ''127..1/0'' = Inl (ParseError ''127..1/0'')"
    using T [of "''127..1/0''"] s by blast
  have c2: "expandCIDR (''0:f:2:4::'' @ ''/'' @ ''63'')
            = Inl (MaskRangeError (''0:f:2:4::'' @ ''/'' @ ''63''))"
    using T [of _ "''0:f:2:4::''" "''63''" 63] a6 d63 by simp
  have c3: "\<exists>fixed ip64 mask64.
              expandCIDR (''0:f:2:4::'' @ ''/'' @ ''64'') = Inr (Loop6 fixed ip64 mask64 0)"
    using T [of _ "''0:f:2:4::''" "''64''" 64] a6 d64 by simp
  have c4: "\<exists>ip32 mask32.
              expandCIDR (''192.168.1.13'' @ ''/'' @ ''30'') = Inr (Loop4 ip32 mask32 0)"
    using T [of _ "''192.168.1.13''" "''30''" 30] a4 d30 by simp
  show ?thesis
    using s a6 a4 d63 d64 d30 c1 c2 c3 c4 by blast
qed

end
